theory Spec2Isabelle
  imports Main "HOL-Library.Product_Lexorder"
begin

section \<open>Python values, exceptions and the Tcl side\<close>

text \<open>
  The module \<^verbatim>\<open>tukaan/textbox.py\<close> wraps a Tk text widget.  Every operation on the
  buffer goes through \<^verbatim>\<open>_tcl_call\<close>; the Python code adds argument handling, clamping,
  error translation and the reconstruction of the document from the dump.  The model keeps
  that split: the Python functions are definitions of this theory, the commands of the Tk
  widget they call are the fields of a \<open>toolkit\<close> record that every function takes as
  its first argument, together with the Tk-side state \<open>'w\<close> of the widget.
\<close>

datatype error =
    TypeError
  | ValueError
  | KeyError string
  | UnboundLocalError string
  | RuntimeError string
  | TclError string

datatype warning = UserWarning string

text \<open>A text position is a pair (line, column); Python compares tuples lexicographically,
  which is the order \<^theory_text>\<open>Product_Lexorder\<close> puts on pairs.\<close>

type_synonym pos = "int \<times> int"

text \<open>
  Index strings handed to Tk, kept structured: a base (\<^verbatim>\<open>"3.7"\<close>, a mark, image or
  window name, \<^verbatim>\<open>"end"\<close>) followed by modifiers (\<^verbatim>\<open>" + 2 chars"\<close>,
  \<^verbatim>\<open>" linestart"\<close>), in the order the source concatenates them.
\<close>

datatype direction = Plus | Minus
datatype unit_kind = Chars | Indices | Lines
datatype tcl_base = AtPos int int | Named string | EndOfText
datatype modifier = Step direction int unit_kind | Suffix string

type_synonym tcl_index = "tcl_base \<times> modifier list"

datatype cmp_op = Lt | Le | Eq | Ge | Gt

datatype event_type = Tagon | Tagoff | ImageEv | MarkEv | TextEv | WindowEv

type_synonym event = "event_type \<times> string \<times> tcl_index"

record 'w toolkit =
  tk_index :: "'w \<Rightarrow> tcl_index \<Rightarrow> string + pos"
  tk_compare :: "'w \<Rightarrow> pos \<Rightarrow> cmp_op \<Rightarrow> pos \<Rightarrow> bool"
  tk_search :: "'w \<Rightarrow> string list \<Rightarrow> string \<Rightarrow> tcl_index \<Rightarrow> tcl_index \<Rightarrow> string + (pos \<times> int) option"
  tk_dump :: "'w \<Rightarrow> event list"
  tk_edit :: "'w \<Rightarrow> string \<Rightarrow> string + (bool \<times> 'w)"
  tk_cget_undo :: "'w \<Rightarrow> bool"
  tk_mark_unset :: "'w \<Rightarrow> string \<Rightarrow> string + 'w"

text \<open>A failing Tcl command surfaces in Python as \<^verbatim>\<open>TclError\<close>.\<close>

definition tcl :: "string + 'a \<Rightarrow> error + 'a" where
  "tcl r = (case r of Inl msg \<Rightarrow> Inl (TclError msg) | Inr v \<Rightarrow> Inr v)"

section \<open>TextMarks\<close>

text \<open>
  \<^verbatim>\<open>
  def __delitem__(self, name: str) -> None:
      if name == "insert":
          raise RuntimeError("can't delete insertion cursor")
      self._widget._tcl_call(None, self._widget.tcl_path, "mark", "unset", name)
  \<close>
  The mark table lives in the widget; the function returns the outcome and the widget state
  after the call.
\<close>

definition marks_delitem :: "'w toolkit \<Rightarrow> string \<Rightarrow> 'w \<Rightarrow> (error + unit) \<times> 'w" where
  "marks_delitem tk name w =
     (if name = ''insert'' then (Inl (RuntimeError ''can't delete insertion cursor''), w)
      else (case tk_mark_unset tk w name of
              Inl msg \<Rightarrow> (Inl (TclError msg), w)
            | Inr w' \<Rightarrow> (Inr (), w')))"

section \<open>TextHistory\<close>

text \<open>
  The Python-visible state of a history call: the widget and the warnings issued so far,
  one entry for each call of \<^verbatim>\<open>warnings.warn\<close>.  The call records the warning and returns,
  as it does unless the warning filters of the interpreter are set to turn warnings into
  exceptions; whether the interpreter prints a recorded warning is left to those filters.
  \<^verbatim>\<open>
  def call_subcommand(self, *args):
      if self._widget.track_history is False:
          warnings.warn("undoing is disabled on this textbox widget. ...", stacklevel=3)
      return self._widget._tcl_call(bool, self._widget, "edit", *args)
  \<close>
\<close>

record 'w pystate =
  widget :: 'w
  warned :: "warning list"

definition history_disabled_warning :: warning where
  "history_disabled_warning =
     UserWarning ''undoing is disabled on this textbox widget. Use `track_history=True` to enable it.''"

definition call_subcommand :: "'w toolkit \<Rightarrow> string \<Rightarrow> 'w pystate \<Rightarrow> (error + bool) \<times> 'w pystate" where
  "call_subcommand tk arg s =
     (let s1 = (if \<not> tk_cget_undo tk (widget s)
                then s\<lparr>warned := warned s @ [history_disabled_warning]\<rparr> else s)
      in case tk_edit tk (widget s1) arg of
           Inl msg \<Rightarrow> (Inl (TclError msg), s1)
         | Inr (b, w') \<Rightarrow> (Inr b, s1\<lparr>widget := w'\<rparr>))"

text \<open>
  \<^verbatim>\<open>
  def undo(self, number=1):
      try:
          for i in range(number):
              self.call_subcommand("undo")
      except TclError:
          return
  \<close>
  \<open>redo\<close> is the same loop with \<^verbatim>\<open>"redo"\<close>.  The loop runs \<open>nat number\<close> times
  (\<^verbatim>\<open>range\<close> of a negative number is empty); a \<^verbatim>\<open>TclError\<close> ends it with a normal
  return, any other exception would propagate.
\<close>

fun edit_loop :: "'w toolkit \<Rightarrow> string \<Rightarrow> nat \<Rightarrow> 'w pystate \<Rightarrow> (error + unit) \<times> 'w pystate" where
  "edit_loop tk arg 0 s = (Inr (), s)"
| "edit_loop tk arg (Suc k) s =
     (case call_subcommand tk arg s of
        (Inl (TclError msg), s') \<Rightarrow> (Inr (), s')
      | (Inl e, s') \<Rightarrow> (Inl e, s')
      | (Inr b, s') \<Rightarrow> edit_loop tk arg k s')"

definition undo :: "'w toolkit \<Rightarrow> int \<Rightarrow> 'w pystate \<Rightarrow> (error + unit) \<times> 'w pystate" where
  "undo tk number s = edit_loop tk ''undo'' (nat number) s"

definition redo :: "'w toolkit \<Rightarrow> int \<Rightarrow> 'w pystate \<Rightarrow> (error + unit) \<times> 'w pystate" where
  "redo tk number s = edit_loop tk ''redo'' (nat number) s"

section \<open>TextIndex\<close>

text \<open>
  The arguments \<^verbatim>\<open>*index\<close> of \<^verbatim>\<open>TextIndex.__new__\<close>: a line and a column, or one value.
  A single value is an integer, a string or \<^verbatim>\<open>Tcl_Obj\<close> holding an index expression, an
  \<^verbatim>\<open>Icon\<close>, \<^verbatim>\<open>Image\<close> or widget (passed to Tk by name), a tuple of integers, or a value of
  any other type (\<open>PyOther\<close>: \<^verbatim>\<open>None\<close>, a float, a list, ...).  Lines and columns are
  integers, as the annotations of the source have them.
\<close>

datatype pyval =
    PyInt int
  | PyStr tcl_index
  | PyTclObj tcl_index
  | PyIcon string
  | PyImage string
  | PyWidget string
  | PyTuple "int list"
  | PyOther

datatype index_args = Args2 int int | Args1 pyval

definition end_minus_1 :: tcl_index where
  "end_minus_1 = (EndOfText, [Step Minus 1 Chars])"

text \<open>
  Lines 212 to 238 of the source, up to the clamping: the (line, column) the arguments
  stand for.  Tk answers \<^verbatim>\<open>index\<close> with a string \<^verbatim>\<open>"line.column"\<close>, which the source
  splits and converts; \<open>tk_index\<close> returns the pair.
  \<^verbatim>\<open>
  if isinstance(index, tuple) and len(index) == 2:
      line, col = index
  else:
      index = index[0]
      if isinstance(index, int):
          if index in {0, 1}:
              line, col = 1, 0
          elif index == -1:
              result = cls._widget._tcl_call(str, cls._widget.tcl_path, "index", f"end - 1 chars")
      elif isinstance(index, tk.Tcl_Obj):
          result = cls._widget._tcl_call(str, cls._widget.tcl_path, "index", str(index))
      elif isinstance(index, (str, Icon, Image.Image, TkWidget)):
          result = cls._widget._tcl_call(str, cls._widget.tcl_path, "index", index)
      elif isinstance(index, tuple):
          line, col = index
      else:
          raise TypeError
  if result:
      line, col = tuple(map(int, result.split(".")))
  \<close>
  An integer other than 0, 1 and -1 binds neither \<^verbatim>\<open>line\<close> nor \<^verbatim>\<open>result\<close>: the next
  use of \<^verbatim>\<open>line\<close> (line 241 or line 246) raises \<^verbatim>\<open>UnboundLocalError\<close>.  A tuple that is
  not a pair fails to unpack with \<^verbatim>\<open>ValueError\<close>.
\<close>

fun TextIndex_resolve :: "'w toolkit \<Rightarrow> 'w \<Rightarrow> index_args \<Rightarrow> error + pos" where
  "TextIndex_resolve tk w (Args2 line col) = Inr (line, col)"
| "TextIndex_resolve tk w (Args1 (PyInt i)) =
     (if i = 0 \<or> i = 1 then Inr (1, 0)
      else if i = - 1 then tcl (tk_index tk w end_minus_1)
      else Inl (UnboundLocalError ''line''))"
| "TextIndex_resolve tk w (Args1 (PyTclObj s)) = tcl (tk_index tk w s)"
| "TextIndex_resolve tk w (Args1 (PyStr s)) = tcl (tk_index tk w s)"
| "TextIndex_resolve tk w (Args1 (PyIcon n)) = tcl (tk_index tk w (Named n, []))"
| "TextIndex_resolve tk w (Args1 (PyImage n)) = tcl (tk_index tk w (Named n, []))"
| "TextIndex_resolve tk w (Args1 (PyWidget n)) = tcl (tk_index tk w (Named n, []))"
| "TextIndex_resolve tk w (Args1 (PyTuple xs)) =
     (case xs of [line, col] \<Rightarrow> Inr (line, col) | _ \<Rightarrow> Inl ValueError)"
| "TextIndex_resolve tk w (Args1 PyOther) = Inl TypeError"

text \<open>
  \<^verbatim>\<open>TextBox.start\<close> is \<^verbatim>\<open>self.index(0, no_check=True)\<close> and \<^verbatim>\<open>TextBox.end\<close> is
  \<^verbatim>\<open>self.index(-1, no_check=True)\<close>: with \<^verbatim>\<open>no_check\<close> the constructor returns the
  resolved pair as it is.
\<close>

definition widget_start :: "'w toolkit \<Rightarrow> 'w \<Rightarrow> error + pos" where
  "widget_start tk w = TextIndex_resolve tk w (Args1 (PyInt 0))"

definition widget_end :: "'w toolkit \<Rightarrow> 'w \<Rightarrow> error + pos" where
  "widget_end tk w = TextIndex_resolve tk w (Args1 (PyInt (- 1)))"

text \<open>
  \<^verbatim>\<open>
  if not no_check:
      if (line, col) < tuple(cls._widget.start):
          return cls._widget.start
      if (line, col) > tuple(cls._widget.end):
          return cls._widget.end
  return super(TextIndex, cls).__new__(cls, line, col)
  \<close>
\<close>

definition TextIndex_new :: "'w toolkit \<Rightarrow> 'w \<Rightarrow> index_args \<Rightarrow> bool \<Rightarrow> error + pos" where
  "TextIndex_new tk w args no_check =
     (case TextIndex_resolve tk w args of
        Inl e \<Rightarrow> Inl e
      | Inr p \<Rightarrow>
          if no_check then Inr p
          else (case widget_start tk w of
                  Inl e \<Rightarrow> Inl e
                | Inr s \<Rightarrow>
                    if p < s then widget_start tk w
                    else (case widget_end tk w of
                            Inl e \<Rightarrow> Inl e
                          | Inr e \<Rightarrow> if p > e then widget_end tk w else Inr p)))"

definition to_tcl :: "pos \<Rightarrow> tcl_index" where
  "to_tcl p = (AtPos (fst p) (snd p), [])"

definition from_tcl :: "'w toolkit \<Rightarrow> 'w \<Rightarrow> tcl_index \<Rightarrow> error + pos" where
  "from_tcl tk w s = TextIndex_new tk w (Args1 (PyStr s)) False"

text \<open>
  The comparison operators of \<^verbatim>\<open>TextIndex\<close> ask Tk (\<^verbatim>\<open>_compare\<close>), and so does
  \<^verbatim>\<open>clamp\<close>:
  \<^verbatim>\<open>
  def clamp(self) -> TextIndex:
      if self < self._widget.start:
          return self._widget.start
      if self > self._widget.end:
          return self._widget.end
      return self
  \<close>
\<close>

definition clamp :: "'w toolkit \<Rightarrow> 'w \<Rightarrow> pos \<Rightarrow> error + pos" where
  "clamp tk w p =
     (case widget_start tk w of
        Inl e \<Rightarrow> Inl e
      | Inr s \<Rightarrow>
          if tk_compare tk w p Lt s then widget_start tk w
          else (case widget_end tk w of
                  Inl e \<Rightarrow> Inl e
                | Inr e \<Rightarrow> if tk_compare tk w p Gt e then widget_end tk w else Inr p))"

text \<open>
  \<^verbatim>\<open>
  def _move(self, dir, chars, indices, lines):
      move_str = ""
      if chars:
          move_str += f" {dir} {chars} chars"
      if indices:
          move_str += f" {dir} {indices} indices"
      if lines:
          move_str += f" {dir} {lines} lines"
      return self.from_tcl(self.to_tcl() + move_str).clamp()
  \<close>
\<close>

definition move_str :: "direction \<Rightarrow> int \<Rightarrow> int \<Rightarrow> int \<Rightarrow> modifier list" where
  "move_str dir chars indices lines =
     (if chars \<noteq> 0 then [Step dir chars Chars] else []) @
     (if indices \<noteq> 0 then [Step dir indices Indices] else []) @
     (if lines \<noteq> 0 then [Step dir lines Lines] else [])"

definition then_clamp :: "'w toolkit \<Rightarrow> 'w \<Rightarrow> error + pos \<Rightarrow> error + pos" where
  "then_clamp tk w r = (case r of Inl e \<Rightarrow> Inl e | Inr p \<Rightarrow> clamp tk w p)"

definition move :: "'w toolkit \<Rightarrow> 'w \<Rightarrow> pos \<Rightarrow> direction \<Rightarrow> int \<Rightarrow> int \<Rightarrow> int \<Rightarrow> error + pos" where
  "move tk w self dir chars indices lines =
     then_clamp tk w
       (from_tcl tk w (fst (to_tcl self), snd (to_tcl self) @ move_str dir chars indices lines))"

definition forward :: "'w toolkit \<Rightarrow> 'w \<Rightarrow> pos \<Rightarrow> int \<Rightarrow> int \<Rightarrow> int \<Rightarrow> error + pos" where
  "forward tk w self chars indices lines = move tk w self Plus chars indices lines"

text \<open>\<^verbatim>\<open>TextIndex.back\<close> (the name \<open>back\<close> is taken in Isabelle).\<close>

definition back_index :: "'w toolkit \<Rightarrow> 'w \<Rightarrow> pos \<Rightarrow> int \<Rightarrow> int \<Rightarrow> int \<Rightarrow> error + pos" where
  "back_index tk w self chars indices lines = move tk w self Minus chars indices lines"

text \<open>
  \<^verbatim>\<open>
  def _apply_suffix(self, suffix) -> TextIndex:
      return self.from_tcl(f"{self.to_tcl()} {suffix}").clamp()
  \<close>
\<close>

definition apply_suffix :: "'w toolkit \<Rightarrow> 'w \<Rightarrow> pos \<Rightarrow> string \<Rightarrow> error + pos" where
  "apply_suffix tk w self suffix =
     then_clamp tk w (from_tcl tk w (fst (to_tcl self), snd (to_tcl self) @ [Suffix suffix]))"

definition linestart :: "'w toolkit \<Rightarrow> 'w \<Rightarrow> pos \<Rightarrow> error + pos" where
  "linestart tk w self = apply_suffix tk w self ''linestart''"

definition lineend :: "'w toolkit \<Rightarrow> 'w \<Rightarrow> pos \<Rightarrow> error + pos" where
  "lineend tk w self = apply_suffix tk w self ''lineend''"

definition wordstart :: "'w toolkit \<Rightarrow> 'w \<Rightarrow> pos \<Rightarrow> error + pos" where
  "wordstart tk w self = apply_suffix tk w self ''wordstart''"

definition wordend :: "'w toolkit \<Rightarrow> 'w \<Rightarrow> pos \<Rightarrow> error + pos" where
  "wordend tk w self = apply_suffix tk w self ''wordend''"

section \<open>TextRange\<close>

text \<open>
  A bound of a range is \<^verbatim>\<open>None\<close> or a pair of integers: a \<^verbatim>\<open>(line, column)\<close> tuple or a
  \<^verbatim>\<open>TextIndex\<close>, which is a named tuple and takes the same branch.  The bounds come from a
  slice or from two positional arguments.
  \<^verbatim>\<open>
  if isinstance(indexes[0], slice):
      start, stop = indexes[0].start, indexes[0].stop
  else:
      start, stop = indexes
  if isinstance(start, tuple):
      start = cls._widget.index(*start)
  if isinstance(stop, tuple):
      stop = cls._widget.index(*stop)
  if start is None:
      start = cls._widget.start
  if stop is None:
      stop = cls._widget.end
  return super(TextRange, cls).__new__(cls, start, stop)
  \<close>
\<close>

datatype bound = BNone | BPair int int

datatype range_args = RSlice bound bound | RTwo bound bound

type_synonym range = "pos \<times> pos"

definition range_start :: "range \<Rightarrow> pos" where
  "range_start r = fst r"

definition range_end :: "range \<Rightarrow> pos" where
  "range_end r = snd r"

fun range_bounds :: "range_args \<Rightarrow> bound \<times> bound" where
  "range_bounds (RSlice a b) = (a, b)"
| "range_bounds (RTwo a b) = (a, b)"

fun bound_index :: "'w toolkit \<Rightarrow> 'w \<Rightarrow> bound \<Rightarrow> error + pos option" where
  "bound_index tk w BNone = Inr None"
| "bound_index tk w (BPair line col) =
     (case TextIndex_new tk w (Args2 line col) False of Inl e \<Rightarrow> Inl e | Inr p \<Rightarrow> Inr (Some p))"

definition TextRange_new :: "'w toolkit \<Rightarrow> 'w \<Rightarrow> range_args \<Rightarrow> error + range" where
  "TextRange_new tk w args =
     (case bound_index tk w (fst (range_bounds args)) of
        Inl e \<Rightarrow> Inl e
      | Inr start \<Rightarrow>
          (case bound_index tk w (snd (range_bounds args)) of
             Inl e \<Rightarrow> Inl e
           | Inr stop \<Rightarrow>
               (case (case start of None \<Rightarrow> widget_start tk w | Some p \<Rightarrow> Inr p) of
                  Inl e \<Rightarrow> Inl e
                | Inr a \<Rightarrow>
                    (case (case stop of None \<Rightarrow> widget_end tk w | Some p \<Rightarrow> Inr p) of
                       Inl e \<Rightarrow> Inl e
                     | Inr b \<Rightarrow> Inr (a, b)))))"

text \<open>
  \<^verbatim>\<open>
  def __contains__(self, index: TextIndex):
      return self.start <= index < self.end
  \<close>
  The chained comparison is \<^verbatim>\<open>self.start <= index and index < self.end\<close>, each half a
  \<^verbatim>\<open>compare\<close> of the widget.
\<close>

definition range_contains :: "'w toolkit \<Rightarrow> 'w \<Rightarrow> range \<Rightarrow> pos \<Rightarrow> bool" where
  "range_contains tk w r index =
     (tk_compare tk w (range_start r) Le index \<and> tk_compare tk w index Lt (range_end r))"

section \<open>TextBox.search\<close>












section \<open>TextBox.content\<close>

text \<open>
  The registries the dump callback reads: \<^verbatim>\<open>_text_tags\<close> and \<^verbatim>\<open>_images\<close> are
  dictionaries of \<^verbatim>\<open>_utils\<close>, \<^verbatim>\<open>TkWidget.from_tcl\<close> is a class method of \<^verbatim>\<open>_base\<close>.
\<close>

datatype tag = Tag string
datatype image = Image string
datatype window = Window string

record registries =
  text_tags :: "string \<rightharpoonup> tag"
  images :: "string \<rightharpoonup> image"
  widget_from_tcl :: "string \<Rightarrow> error + window"

datatype item =
    IndexItem pos
  | TextItem string
  | MarkItem string
  | ImageItem image
  | WindowItem window
  | SpanItem range tag

definition getitem :: "(string \<rightharpoonup> 'a) \<Rightarrow> string \<Rightarrow> error + 'a" where
  "getitem d k = (case d k of None \<Rightarrow> Inl (KeyError k) | Some v \<Rightarrow> Inr v)"

text \<open>
  \<^verbatim>\<open>
  convert = {
      "image": lambda x: _images[x],
      "mark": lambda x: f"TextBox.marks[{x!r}]",
      "text": str,
      "window": TkWidget.from_tcl,
  }[type]
  \<close>
  The dictionary has no entry for \<^verbatim>\<open>"tagon"\<close> and \<^verbatim>\<open>"tagoff"\<close>.
\<close>

fun convert :: "registries \<Rightarrow> event_type \<Rightarrow> error + (string \<Rightarrow> error + item)" where
  "convert reg ImageEv =
     Inr (\<lambda>x. case getitem (images reg) x of Inl e \<Rightarrow> Inl e | Inr i \<Rightarrow> Inr (ImageItem i))"
| "convert reg MarkEv = Inr (\<lambda>x. Inr (MarkItem x))"
| "convert reg TextEv = Inr (\<lambda>x. Inr (TextItem x))"
| "convert reg WindowEv =
     Inr (\<lambda>x. case widget_from_tcl reg x of Inl e \<Rightarrow> Inl e | Inr v \<Rightarrow> Inr (WindowItem v))"
| "convert reg Tagon = Inl (KeyError ''tagon'')"
| "convert reg Tagoff = Inl (KeyError ''tagoff'')"

text \<open>
  \<^verbatim>\<open>
  def add_item(type: str, value: str, index: str) -> None:
      if type == "tagon":
          unclosed_tags[value] = (index, len(result))
          return
      elif type == "tagoff":
          if value in unclosed_tags:
              result.insert(
                  unclosed_tags[value][1],
                  (self.range(self.index(unclosed_tags[value][0]), self.index(index)),
                   Tag.from_tcl(value)))
              return
      convert = {...}[type]
      result += (self.index(index), convert(value))
  \<close>
  \<^verbatim>\<open>result\<close> is a list and the right-hand side of the last line a tuple of two values:
  \<^verbatim>\<open>+=\<close> extends the list by both, first the index, then the converted value.
  \<^verbatim>\<open>list.insert(i, x)\<close> puts \<^verbatim>\<open>x\<close> before position \<^verbatim>\<open>i\<close>, at the end when the list is
  shorter.
\<close>

type_synonym scan_state = "item list \<times> (string \<rightharpoonup> tcl_index \<times> nat)"

definition list_insert :: "nat \<Rightarrow> 'a \<Rightarrow> 'a list \<Rightarrow> 'a list" where
  "list_insert i x xs = take i xs @ [x] @ drop i xs"

definition close_tag ::
  "'w toolkit \<Rightarrow> 'w \<Rightarrow> registries \<Rightarrow> string \<Rightarrow> tcl_index \<Rightarrow> tcl_index \<times> nat \<Rightarrow> item list \<Rightarrow> error + item list" where
  "close_tag tk w reg value index opened result =
     (case from_tcl tk w (fst opened) of
        Inl e \<Rightarrow> Inl e
      | Inr a \<Rightarrow>
          (case from_tcl tk w index of
             Inl e \<Rightarrow> Inl e
           | Inr b \<Rightarrow>
               (case TextRange_new tk w (RTwo (BPair (fst a) (snd a)) (BPair (fst b) (snd b))) of
                  Inl e \<Rightarrow> Inl e
                | Inr r \<Rightarrow>
                    (case getitem (text_tags reg) value of
                       Inl e \<Rightarrow> Inl e
                     | Inr t \<Rightarrow> Inr (list_insert (snd opened) (SpanItem r t) result)))))"

definition append_item ::
  "'w toolkit \<Rightarrow> 'w \<Rightarrow> registries \<Rightarrow> event_type \<Rightarrow> string \<Rightarrow> tcl_index \<Rightarrow> item list \<Rightarrow> error + item list" where
  "append_item tk w reg ty value index result =
     (case convert reg ty of
        Inl e \<Rightarrow> Inl e
      | Inr conv \<Rightarrow>
          (case from_tcl tk w index of
             Inl e \<Rightarrow> Inl e
           | Inr p \<Rightarrow>
               (case conv value of
                  Inl e \<Rightarrow> Inl e
                | Inr v \<Rightarrow> Inr (result @ [IndexItem p, v]))))"

definition add_item ::
  "'w toolkit \<Rightarrow> 'w \<Rightarrow> registries \<Rightarrow> event \<Rightarrow> scan_state \<Rightarrow> error + scan_state" where
  "add_item tk w reg ev st =
     (let ty = fst ev; value = fst (snd ev); index = snd (snd ev);
          result = fst st; unclosed_tags = snd st
      in if ty = Tagon then Inr (result, unclosed_tags(value \<mapsto> (index, length result)))
         else (case (if ty = Tagoff then unclosed_tags value else None) of
                 Some opened \<Rightarrow>
                   (case close_tag tk w reg value index opened result of
                      Inl e \<Rightarrow> Inl e
                    | Inr result' \<Rightarrow> Inr (result', unclosed_tags))
               | None \<Rightarrow>
                   (case append_item tk w reg ty value index result of
                      Inl e \<Rightarrow> Inl e
                    | Inr result' \<Rightarrow> Inr (result', unclosed_tags))))"

text \<open>
  Tk's \<^verbatim>\<open>dump -all -command add_item 1.0 "end - 1 chars"\<close> calls \<^verbatim>\<open>add_item\<close> once for
  each event of the buffer, in order; an exception in the callback ends the scan.
\<close>

fun dump_items ::
  "'w toolkit \<Rightarrow> 'w \<Rightarrow> registries \<Rightarrow> event list \<Rightarrow> scan_state \<Rightarrow> error + scan_state" where
  "dump_items tk w reg [] st = Inr st"
| "dump_items tk w reg (ev # evs) st =
     (case add_item tk w reg ev st of
        Inl e \<Rightarrow> Inl e
      | Inr st' \<Rightarrow> dump_items tk w reg evs st')"

definition scan :: "'w toolkit \<Rightarrow> 'w \<Rightarrow> registries \<Rightarrow> event list \<Rightarrow> error + item list" where
  "scan tk w reg evs =
     (case dump_items tk w reg evs ([], Map.empty) of Inl e \<Rightarrow> Inl e | Inr st \<Rightarrow> Inr (fst st))"

definition content :: "'w toolkit \<Rightarrow> 'w \<Rightarrow> registries \<Rightarrow> error + item list" where
  "content tk w reg = scan tk w reg (tk_dump tk w)"

section \<open>TextBox.Peer\<close>

text \<open>
  What the peer bookkeeping of a \<^verbatim>\<open>TextBox\<close> reads and writes: its Tcl path, the
  \<^verbatim>\<open>TextBox\<close> it is a peer of (\<^verbatim>\<open>peer_of\<close>, the object itself in the source), its
  \<^verbatim>\<open>peer_count\<close>, and the Tk command that created the widget: a fresh \<^verbatim>\<open>text\<close>, or
  \<^verbatim>\<open>(_peer_of, "peer", "create", tcl_path)\<close>, which makes a widget on the data of
  \<^verbatim>\<open>_peer_of\<close>.  The path of a peer is
  \<^verbatim>\<open>f"{frame}.textbox_peer_{_peer_of.peer_count}_of_{_peer_of.tcl_path.split('.')[-1]}"\<close>,
  kept as the number and the path it is built from.
\<close>

datatype wpath = WidgetPath string | PeerPath nat wpath

datatype creation = NewText | PeerCreate wpath

datatype textbox =
  TextBox (tcl_path: wpath) (peer_of: "textbox option") (peer_count: nat) (created_by: creation)

text \<open>
  Of the keyword arguments of \<^verbatim>\<open>TextBox.__init__\<close> the source validates \<^verbatim>\<open>padding\<close>
  itself, before anything is created; the others are handed to Tk.
  \<^verbatim>\<open>
  if padding is not None:
      if isinstance(padding, int):
          padx = pady = padding
      elif len(padding) == 1:
          padx = pady = padding[0]
      elif len(padding) == 2:
          padx, pady = padding
      else:
          raise ValueError("unfortunately 4 side paddings aren't supported for TextBox padding")
  \<close>
\<close>

datatype padding = PadInt int | PadSeq "int list"

fun padding_xy :: "padding option \<Rightarrow> error + (int option \<times> int option)" where
  "padding_xy None = Inr (None, None)"
| "padding_xy (Some (PadInt n)) = Inr (Some n, Some n)"
| "padding_xy (Some (PadSeq [a])) = Inr (Some a, Some a)"
| "padding_xy (Some (PadSeq [a, b])) = Inr (Some a, Some b)"
| "padding_xy (Some (PadSeq xs)) = Inl ValueError"

text \<open>
  \<^verbatim>\<open>
  self.peer_of = _peer_of
  ...
  if _peer_of is None:
      self._frame = _textbox_frame(parent)
      BaseWidget.__init__(self, self._frame, None, **to_call)
  else:
      self._frame = _textbox_frame(_peer_of._frame.parent)
      tcl_path = f"...textbox_peer_{_peer_of.peer_count}_of_..."
      BaseWidget.__init__(self, self._frame, (_peer_of, "peer", "create", tcl_path), **to_call)
      self.tcl_path = tcl_path
  self.peer_count: int = 0
  \<close>
  \<open>name\<close> is the path \<^verbatim>\<open>BaseWidget.__init__\<close> gives a widget that is not a peer.
\<close>

definition TextBox_init :: "string \<Rightarrow> textbox option \<Rightarrow> padding option \<Rightarrow> error + textbox" where
  "TextBox_init name peer padding =
     (case padding_xy padding of
        Inl e \<Rightarrow> Inl e
      | Inr pad \<Rightarrow>
          (case peer of
             None \<Rightarrow> Inr (TextBox (WidgetPath name) None 0 NewText)
           | Some p \<Rightarrow>
               Inr (TextBox (PeerPath (peer_count p) (tcl_path p)) (Some p) 0
                      (PeerCreate (tcl_path p)))))"

text \<open>
  \<^verbatim>\<open>
  def Peer(self, **kwargs):
      if self.peer_of is None:
          self.peer_count += 1
          return TextBox(_peer_of=self, **kwargs)
      else:
          raise RuntimeError("can't create a peer of a peer")
  \<close>
  The result is the outcome together with \<^verbatim>\<open>self\<close> after the call.
\<close>

definition Peer :: "textbox \<Rightarrow> padding option \<Rightarrow> (error + textbox) \<times> textbox" where
  "Peer self padding =
     (if peer_of self = None
      then (let self' = TextBox (tcl_path self) (peer_of self) (peer_count self + 1) (created_by self)
            in (TextBox_init [] (Some self') padding, self'))
      else (Inl (RuntimeError ''can't create a peer of a peer''), self))"

text \<open>The widget whose text data a \<^verbatim>\<open>TextBox\<close> shows, and how deep the peer chain is.\<close>

definition data_of :: "textbox \<Rightarrow> wpath" where
  "data_of b = (case created_by b of NewText \<Rightarrow> tcl_path b | PeerCreate p \<Rightarrow> p)"

fun nesting_depth :: "textbox \<Rightarrow> nat" where
  "nesting_depth (TextBox path None n c) = 0"
| "nesting_depth (TextBox path (Some p) n c) = Suc (nesting_depth p)"

text \<open>The \<^verbatim>\<open>TextBox\<close> objects a program can hold: made by the constructor without
  \<^verbatim>\<open>_peer_of\<close>, or by \<^verbatim>\<open>Peer\<close> from one it holds.\<close>

inductive obtainable :: "textbox \<Rightarrow> bool" where
  fresh: "TextBox_init name None padding = Inr b \<Longrightarrow> obtainable b"
| peer_self: "obtainable b \<Longrightarrow> Peer b padding = (r, b') \<Longrightarrow> obtainable b'"
| peer_new: "obtainable b \<Longrightarrow> Peer b padding = (Inr p, b') \<Longrightarrow> obtainable p"

section \<open>A scripted text widget\<close>

text \<open>
  Modelled from the spec: the Tk text widget behind \<^verbatim>\<open>_tcl_call\<close> is not part of the
  source.  This stand-in answers \<^verbatim>\<open>index\<close>, \<^verbatim>\<open>search\<close> and \<^verbatim>\<open>dump\<close> from tables,
  compares positions lexicographically, and keeps the history of section 4.5 of the
  specification as two stacks of earlier and later texts: \<^verbatim>\<open>edit undo\<close> and
  \<^verbatim>\<open>edit redo\<close> move one group, fail at the end of the log, and do nothing when history
  tracking is off.  It is used to run the definitions above on concrete inputs.
\<close>

record script =
  index_answers :: "(tcl_index \<times> pos) list"
  search_answers :: "(tcl_index \<times> pos \<times> int) list"
  dump_answer :: "event list"
  undo_enabled :: bool
  undo_stack :: "string list"
  text_now :: string
  redo_stack :: "string list"
  mark_names :: "string list"

definition script_index :: "script \<Rightarrow> tcl_index \<Rightarrow> string + pos" where
  "script_index w s =
     (case map_of (index_answers w) s of None \<Rightarrow> Inl ''bad text index'' | Some p \<Rightarrow> Inr p)"

fun script_compare :: "script \<Rightarrow> pos \<Rightarrow> cmp_op \<Rightarrow> pos \<Rightarrow> bool" where
  "script_compare w a Lt b = (a < b)"
| "script_compare w a Le b = (a \<le> b)"
| "script_compare w a Eq b = (a = b)"
| "script_compare w a Ge b = (a \<ge> b)"
| "script_compare w a Gt b = (a > b)"

definition script_search ::
  "script \<Rightarrow> string list \<Rightarrow> string \<Rightarrow> tcl_index \<Rightarrow> tcl_index \<Rightarrow> string + (pos \<times> int) option" where
  "script_search w sw pattern start stop = Inr (map_of (search_answers w) start)"

definition undo_group :: "script \<Rightarrow> script" where
  "undo_group w =
     (case undo_stack w of
        [] \<Rightarrow> w
      | t # ts \<Rightarrow> w\<lparr>undo_stack := ts, text_now := t, redo_stack := text_now w # redo_stack w\<rparr>)"

definition redo_group :: "script \<Rightarrow> script" where
  "redo_group w =
     (case redo_stack w of
        [] \<Rightarrow> w
      | t # ts \<Rightarrow> w\<lparr>undo_stack := text_now w # undo_stack w, text_now := t, redo_stack := ts\<rparr>)"

definition script_edit :: "script \<Rightarrow> string \<Rightarrow> string + (bool \<times> script)" where
  "script_edit w cmd =
     (if cmd = ''undo'' then
        (if \<not> undo_enabled w then Inr (False, w)
         else if undo_stack w = [] then Inl ''nothing to undo''
         else Inr (False, undo_group w))
      else if cmd = ''redo'' then
        (if \<not> undo_enabled w then Inr (False, w)
         else if redo_stack w = [] then Inl ''nothing to redo''
         else Inr (False, redo_group w))
      else if cmd = ''canundo'' then Inr (undo_enabled w \<and> undo_stack w \<noteq> [], w)
      else if cmd = ''canredo'' then Inr (undo_enabled w \<and> redo_stack w \<noteq> [], w)
      else if cmd = ''reset'' then Inr (False, w\<lparr>undo_stack := [], redo_stack := []\<rparr>)
      else Inr (False, w))"

definition script_mark_unset :: "script \<Rightarrow> string \<Rightarrow> string + script" where
  "script_mark_unset w name =
     Inr (if name = ''insert'' \<or> name = ''current'' then w
          else w\<lparr>mark_names := removeAll name (mark_names w)\<rparr>)"

definition scripted_tk :: "script toolkit" where
  "scripted_tk =
     \<lparr>tk_index = script_index, tk_compare = script_compare, tk_search = script_search,
      tk_dump = dump_answer, tk_edit = script_edit, tk_cget_undo = undo_enabled,
      tk_mark_unset = script_mark_unset\<rparr>"

text \<open>The buffer of the reconstruction example: one line \<^verbatim>\<open>abcd\<close>, tag \<^verbatim>\<open>t\<close> on
  \<^verbatim>\<open>cd\<close>.\<close>

definition example_stream :: "event list" where
  "example_stream =
     [(TextEv, ''ab'', (AtPos 1 0, [])), (Tagon, ''t'', (AtPos 1 2, [])),
      (TextEv, ''cd'', (AtPos 1 2, [])), (Tagoff, ''t'', (AtPos 1 4, []))]"

definition example_widget :: script where
  "example_widget =
     \<lparr>index_answers =
        [(end_minus_1, (1, 4)), ((AtPos 1 0, []), (1, 0)), ((AtPos 1 2, []), (1, 2)),
         ((AtPos 1 4, []), (1, 4)), ((AtPos 1 0, [Step Plus 2 Chars]), (1, 2)),
         ((AtPos 1 2, [Step Plus 2 Chars]), (1, 4)), ((AtPos 5 7, []), (2, 0))],
      search_answers = [((AtPos 1 0, []), ((1, 2), 2))],
      dump_answer = example_stream,
      undo_enabled = False,
      undo_stack = [''abc'', ''ab''],
      text_now = ''abcd'',
      redo_stack = [],
      mark_names = [''insert'', ''current'', ''m'']\<rparr>"

definition example_registries :: registries where
  "example_registries =
     \<lparr>text_tags = [''t'' \<mapsto> Tag ''t''], images = Map.empty,
      widget_from_tcl = (\<lambda>x. Inl (KeyError x))\<rparr>"

definition history_example :: "script pystate" where
  "history_example = \<lparr>widget = example_widget\<lparr>undo_enabled := True\<rparr>, warned = []\<rparr>"

definition disabled_example :: "script pystate" where
  "disabled_example = \<lparr>widget = example_widget, warned = []\<rparr>"

section \<open>A one-line text widget\<close>

text \<open>
  Modelled from the spec: the search itself is Tk's and not part of the source.  This
  stand-in is a buffer of one line of text, as in the search example of section 8 of the
  specification.  Positions are character offsets into the line: offset \<open>n\<close> is
  \<^verbatim>\<open>1.n\<close> up to the length of the line, where the final newline stands, and the offset
  after it is \<^verbatim>\<open>end\<close>, \<^verbatim>\<open>2.0\<close>.  Index expressions are a position or \<^verbatim>\<open>end\<close> with
  steps in characters or indices; steps in lines, suffixes and names are not modelled.  The
  search is the plain forward search for a literal pattern: the first occurrence that
  starts at or after the start and before the stop, with the length of the pattern as its
  count.  The switches play no part.  The empty pattern occurs with length 0 at every
  position, which is how matches of no width enter the model.
\<close>

definition line_offset :: "string \<Rightarrow> pos \<Rightarrow> nat" where
  "line_offset text p =
     (if fst p < 1 then 0
      else if fst p = 1 then nat (min (int (length text)) (snd p))
      else Suc (length text))"

definition line_pos :: "string \<Rightarrow> nat \<Rightarrow> pos" where
  "line_pos text n = (if n \<le> length text then (1, int n) else (2, 0))"

fun line_step :: "string \<Rightarrow> nat \<Rightarrow> modifier \<Rightarrow> string + nat" where
  "line_step text n (Step dir k u) =
     (if u = Lines then Inl ''line steps are not modelled''
      else Inr (nat (min (int (Suc (length text)))
                  (case dir of Plus \<Rightarrow> int n + k | Minus \<Rightarrow> int n - k))))"
| "line_step text n (Suffix s) = Inl ''suffixes are not modelled''"

fun line_steps :: "string \<Rightarrow> nat \<Rightarrow> modifier list \<Rightarrow> string + nat" where
  "line_steps text n [] = Inr n"
| "line_steps text n (m # ms) =
     (case line_step text n m of Inl e \<Rightarrow> Inl e | Inr n' \<Rightarrow> line_steps text n' ms)"

definition line_resolve :: "string \<Rightarrow> tcl_index \<Rightarrow> string + nat" where
  "line_resolve text s =
     (case fst s of
        AtPos l c \<Rightarrow> line_steps text (line_offset text (l, c)) (snd s)
      | EndOfText \<Rightarrow> line_steps text (Suc (length text)) (snd s)
      | Named n \<Rightarrow> Inl ''bad text index'')"

definition line_index :: "string \<Rightarrow> tcl_index \<Rightarrow> string + pos" where
  "line_index text s =
     (case line_resolve text s of Inl e \<Rightarrow> Inl e | Inr n \<Rightarrow> Inr (line_pos text n))"

fun line_compare :: "string \<Rightarrow> pos \<Rightarrow> cmp_op \<Rightarrow> pos \<Rightarrow> bool" where
  "line_compare text a Lt b = (a < b)"
| "line_compare text a Le b = (a \<le> b)"
| "line_compare text a Eq b = (a = b)"
| "line_compare text a Ge b = (a \<ge> b)"
| "line_compare text a Gt b = (a > b)"

definition line_search ::
  "string \<Rightarrow> string list \<Rightarrow> string \<Rightarrow> tcl_index \<Rightarrow> tcl_index \<Rightarrow> string + (pos \<times> int) option" where
  "line_search text sw pattern start stop =
     (case line_resolve text start of
        Inl e \<Rightarrow> Inl e
      | Inr s \<Rightarrow>
          (case line_resolve text stop of
             Inl e \<Rightarrow> Inl e
           | Inr t \<Rightarrow>
               Inr (case find (\<lambda>i. take (length pattern) (drop i text) = pattern)
                           [s..<min t (Suc (length text))] of
                      None \<Rightarrow> None
                    | Some i \<Rightarrow> Some (line_pos text i, int (length pattern)))))"

definition line_tk :: "string toolkit" where
  "line_tk =
     \<lparr>tk_index = line_index, tk_compare = line_compare, tk_search = line_search,
      tk_dump = (\<lambda>text. []), tk_edit = (\<lambda>text cmd. Inr (False, text)),
      tk_cget_undo = (\<lambda>text. False), tk_mark_unset = (\<lambda>text name. Inr text)\<rparr>"

section \<open>Stating the clamping\<close>

text \<open>The position a pair is clamped to in a buffer whose last position is \<open>e\<close>, and
  the pairs of range bounds that are given in order (an omitted bound is in order with
  everything).\<close>

definition clamped_to :: "pos \<Rightarrow> pos \<Rightarrow> pos" where
  "clamped_to e p = (if p < (1, 0) then (1, 0) else if e < p then e else p)"

fun bounds_ordered :: "bound \<Rightarrow> bound \<Rightarrow> bool" where
  "bounds_ordered (BPair l1 c1) (BPair l2 c2) = ((l1, c1) \<le> (l2, c2))"
| "bounds_ordered a b = True"

section \<open>Stating the other properties\<close>

text \<open>Two states of the scan that hold the same result and the same open tags, the tag
  \<open>t\<close> apart.\<close>

definition same_but :: "string \<Rightarrow> scan_state \<Rightarrow> scan_state \<Rightarrow> bool" where
  "same_but t st1 st2 = (fst st1 = fst st2 \<and> (\<forall>k. k \<noteq> t \<longrightarrow> snd st1 k = snd st2 k))"

text \<open>The invariant of the peer bookkeeping: a \<^verbatim>\<open>TextBox\<close> that is no peer was created
  as a fresh text widget, and a peer is a peer of one that is no peer, created on its
  data.\<close>

definition peer_inv :: "textbox \<Rightarrow> bool" where
  "peer_inv b =
     (case peer_of b of
        None \<Rightarrow> created_by b = NewText
      | Some p \<Rightarrow> peer_of p = None \<and> created_by p = NewText \<and> created_by b = PeerCreate (tcl_path p))"




definition example_box :: textbox where
  "example_box = TextBox (WidgetPath ''.textbox'') None 0 NewText"

section \<open>Properties of the mark table\<close>

text \<open>
  Claim C9.  Deleting the mark \<^verbatim>\<open>"insert"\<close> raises the \<^verbatim>\<open>RuntimeError\<close> that protects the
  insertion cursor and leaves the widget, and so its mark table, as it was.  Deleting a
  mark of any other name never raises a \<^verbatim>\<open>RuntimeError\<close>: the request goes to Tk's
  \<^verbatim>\<open>mark unset\<close>, whose outcome is the outcome of the call.
\<close>

theorem marks_delitem_protects_insert:
  "marks_delitem tk ''insert'' w = (Inl (RuntimeError ''can't delete insertion cursor''), w) \<and>
   (name \<noteq> ''insert'' \<longrightarrow>
      fst (marks_delitem tk name w) \<noteq> Inl (RuntimeError msg) \<and>
      marks_delitem tk name w =
        (case tk_mark_unset tk w name of
           Inl m \<Rightarrow> (Inl (TclError m), w) | Inr w' \<Rightarrow> (Inr (), w')))"
  by (auto simp: marks_delitem_def split: sum.splits)

theorem marks_delitem_protects_insert_witness:
  "''m'' \<noteq> ''insert'' \<and>
   marks_delitem scripted_tk ''m'' example_widget =
     (Inr (), example_widget\<lparr>mark_names := [''insert'', ''current'']\<rparr>) \<and>
   fst (marks_delitem scripted_tk ''m'' example_widget) \<noteq>
     Inl (RuntimeError ''can't delete insertion cursor'')"
  using marks_delitem_protects_insert
    [of scripted_tk example_widget "''m''" "''can't delete insertion cursor''"]
  by (simp add: scripted_tk_def script_mark_unset_def example_widget_def)

section \<open>Properties of the history\<close>

lemma call_subcommand_raises_TclError:
  "fst (call_subcommand tk arg s) = Inl e \<Longrightarrow> \<exists>msg. e = TclError msg"
  by (auto simp: call_subcommand_def Let_def split: sum.splits prod.splits)

lemma edit_loop_returns: "fst (edit_loop tk arg k s) = Inr ()"
proof (induction k arbitrary: s)
  case 0
  show ?case by simp
next
  case (Suc k)
  obtain r s' where c: "call_subcommand tk arg s = (r, s')"
    by (cases "call_subcommand tk arg s")
  show ?case
  proof (cases r)
    case (Inl e)
    with c call_subcommand_raises_TclError [of tk arg s e]
    obtain msg where "e = TclError msg" by auto
    with c Inl show ?thesis by simp
  next
    case (Inr b)
    with c Suc.IH [of s'] show ?thesis by simp
  qed
qed

lemma undo_group_enabled [simp]: "undo_enabled (undo_group w) = undo_enabled w"
  by (simp add: undo_group_def split: list.splits)

lemma redo_group_enabled [simp]: "undo_enabled (redo_group w) = undo_enabled w"
  by (simp add: redo_group_def split: list.splits)

lemma undo_group_stack [simp]: "undo_stack (undo_group w) = tl (undo_stack w)"
  by (simp add: undo_group_def split: list.splits)

lemma redo_group_stack [simp]: "redo_stack (redo_group w) = tl (redo_stack w)"
  by (simp add: redo_group_def split: list.splits)

lemma script_undo_step:
  "undo_enabled (widget s) \<Longrightarrow>
   call_subcommand scripted_tk ''undo'' s =
     (if undo_stack (widget s) = [] then (Inl (TclError ''nothing to undo''), s)
      else (Inr False, s\<lparr>widget := undo_group (widget s)\<rparr>))"
  by (simp add: call_subcommand_def scripted_tk_def script_edit_def)

lemma script_redo_step:
  "undo_enabled (widget s) \<Longrightarrow>
   call_subcommand scripted_tk ''redo'' s =
     (if redo_stack (widget s) = [] then (Inl (TclError ''nothing to redo''), s)
      else (Inr False, s\<lparr>widget := redo_group (widget s)\<rparr>))"
  by (simp add: call_subcommand_def scripted_tk_def script_edit_def)

text \<open>On the scripted history the loop undoes as many groups as the log holds, at most
  the number asked for.\<close>

lemma script_undo_loop:
  "undo_enabled (widget s) \<Longrightarrow>
   edit_loop scripted_tk ''undo'' k s =
     (Inr (), s\<lparr>widget := (undo_group ^^ min k (length (undo_stack (widget s)))) (widget s)\<rparr>)"
proof (induction k arbitrary: s)
  case 0
  show ?case by simp
next
  case (Suc k)
  show ?case
  proof (cases "undo_stack (widget s) = []")
    case True
    with Suc.prems show ?thesis by (simp add: script_undo_step)
  next
    case False
    then obtain t ts where st: "undo_stack (widget s) = t # ts"
      by (cases "undo_stack (widget s)") auto
    let ?s' = "s\<lparr>widget := undo_group (widget s)\<rparr>"
    have en: "undo_enabled (widget ?s')" using Suc.prems by simp
    have "edit_loop scripted_tk ''undo'' (Suc k) s = edit_loop scripted_tk ''undo'' k ?s'"
      using Suc.prems False by (simp add: script_undo_step)
    also have "\<dots> =
        (Inr (), ?s'\<lparr>widget := (undo_group ^^ min k (length (undo_stack (widget ?s')))) (widget ?s')\<rparr>)"
      using Suc.IH [OF en] .
    finally show ?thesis using st by (simp add: funpow_swap1)
  qed
qed

lemma script_redo_loop:
  "undo_enabled (widget s) \<Longrightarrow>
   edit_loop scripted_tk ''redo'' k s =
     (Inr (), s\<lparr>widget := (redo_group ^^ min k (length (redo_stack (widget s)))) (widget s)\<rparr>)"
proof (induction k arbitrary: s)
  case 0
  show ?case by simp
next
  case (Suc k)
  show ?case
  proof (cases "redo_stack (widget s) = []")
    case True
    with Suc.prems show ?thesis by (simp add: script_redo_step)
  next
    case False
    then obtain t ts where st: "redo_stack (widget s) = t # ts"
      by (cases "redo_stack (widget s)") auto
    let ?s' = "s\<lparr>widget := redo_group (widget s)\<rparr>"
    have en: "undo_enabled (widget ?s')" using Suc.prems by simp
    have "edit_loop scripted_tk ''redo'' (Suc k) s = edit_loop scripted_tk ''redo'' k ?s'"
      using Suc.prems False by (simp add: script_redo_step)
    also have "\<dots> =
        (Inr (), ?s'\<lparr>widget := (redo_group ^^ min k (length (redo_stack (widget ?s')))) (widget ?s')\<rparr>)"
      using Suc.IH [OF en] .
    finally show ?thesis using st by (simp add: funpow_swap1)
  qed
qed

text \<open>
  Claim C8.  Whatever the toolkit answers and whatever the number, \<^verbatim>\<open>undo\<close> and
  \<^verbatim>\<open>redo\<close> return normally: the only exception the loop can meet is the \<^verbatim>\<open>TclError\<close> of
  a failed \<^verbatim>\<open>edit\<close>, and that ends the loop silently.  On the history log of the
  specification, with tracking on, \<^verbatim>\<open>undo(n)\<close> takes single-group steps until \<open>n\<close> are
  done or the log is at its end, \<open>min n (length log)\<close> steps in all, and \<^verbatim>\<open>redo(n)\<close> does
  the same towards the other end.
\<close>

theorem undo_redo_stop_silently:
  "fst (undo tk n s) = Inr () \<and> fst (redo tk n s) = Inr () \<and>
   (undo_enabled (widget h) \<longrightarrow>
      undo scripted_tk n h =
        (Inr (), h\<lparr>widget :=
           (undo_group ^^ min (nat n) (length (undo_stack (widget h)))) (widget h)\<rparr>) \<and>
      redo scripted_tk n h =
        (Inr (), h\<lparr>widget :=
           (redo_group ^^ min (nat n) (length (redo_stack (widget h)))) (widget h)\<rparr>))"
  by (simp add: undo_def redo_def edit_loop_returns script_undo_loop script_redo_loop)

theorem undo_redo_stop_silently_witness:
  "undo_enabled (widget history_example) \<and>
   undo scripted_tk 5 history_example =
     (Inr (), history_example\<lparr>widget := example_widget
        \<lparr>undo_enabled := True, undo_stack := [], text_now := ''ab'',
         redo_stack := [''abc'', ''abcd'']\<rparr>\<rparr>)"
  using undo_redo_stop_silently [of scripted_tk 5 history_example history_example]
  by (simp add: history_example_def example_widget_def undo_group_def numeral_2_eq_2)

lemma disabled_step:
  assumes "\<not> tk_cget_undo tk (widget s)"
    and "\<exists>b. tk_edit tk (widget s) arg = Inr (b, widget s)"
  shows "\<exists>b. call_subcommand tk arg s =
           (Inr b, s\<lparr>warned := warned s @ [history_disabled_warning]\<rparr>)"
  using assms by (auto simp: call_subcommand_def)

lemma disabled_loop:
  assumes "\<not> tk_cget_undo tk (widget s)"
    and "\<exists>b. tk_edit tk (widget s) arg = Inr (b, widget s)"
  shows "edit_loop tk arg k s =
           (Inr (), s\<lparr>warned := warned s @ replicate k history_disabled_warning\<rparr>)"
  using assms
proof (induction k arbitrary: s)
  case 0
  show ?case by simp
next
  case (Suc k)
  let ?s' = "s\<lparr>warned := warned s @ [history_disabled_warning]\<rparr>"
  from disabled_step [OF Suc.prems]
  obtain b where c: "call_subcommand tk arg s = (Inr b, ?s')" by blast
  have "edit_loop tk arg (Suc k) s = edit_loop tk arg k ?s'" using c by simp
  also have "\<dots> = (Inr (), ?s'\<lparr>warned := warned ?s' @ replicate k history_disabled_warning\<rparr>)"
    using Suc.prems by (intro Suc.IH) simp_all
  finally show ?case by (simp add: replicate_app_Cons_same)
qed

lemma call_subcommand_warned:
  "\<exists>ws. warned (snd (call_subcommand tk arg s)) = warned s @ ws"
  by (auto simp: call_subcommand_def Let_def split: sum.splits prod.splits)

lemma call_subcommand_off:
  "\<not> tk_cget_undo tk (widget s) \<Longrightarrow>
   warned (snd (call_subcommand tk arg s)) = warned s @ [history_disabled_warning]"
  by (auto simp: call_subcommand_def Let_def split: sum.splits prod.splits)

lemma edit_loop_warned: "\<exists>ws. warned (snd (edit_loop tk arg k s)) = warned s @ ws"
proof (induction k arbitrary: s)
  case 0
  show ?case by simp
next
  case (Suc k)
  obtain r s' where c: "call_subcommand tk arg s = (r, s')"
    by (cases "call_subcommand tk arg s")
  from call_subcommand_warned [of tk arg s] c obtain ws where w: "warned s' = warned s @ ws"
    by auto
  show ?case
  proof (cases r)
    case (Inl e)
    with c w show ?thesis by (cases e) auto
  next
    case (Inr b)
    from Suc.IH [of s'] obtain ws' where "warned (snd (edit_loop tk arg k s')) = warned s' @ ws'"
      by blast
    with c Inr w show ?thesis by simp
  qed
qed

lemma edit_loop_off:
  assumes "\<not> tk_cget_undo tk (widget s)"
  shows "\<exists>ws. warned (snd (edit_loop tk arg (Suc k) s)) = warned s @ history_disabled_warning # ws"
proof -
  obtain r s' where c: "call_subcommand tk arg s = (r, s')"
    by (cases "call_subcommand tk arg s")
  from call_subcommand_off [OF assms, of arg] c
  have w: "warned s' = warned s @ [history_disabled_warning]" by simp
  show ?thesis
  proof (cases r)
    case (Inl e)
    with c w show ?thesis by (cases e) auto
  next
    case (Inr b)
    from edit_loop_warned [of tk arg k s'] obtain ws'
      where "warned (snd (edit_loop tk arg k s')) = warned s' @ ws'" by blast
    with c Inr w show ?thesis by simp
  qed
qed

lemma call_subcommand_widget:
  "widget (snd (call_subcommand tk arg s)) =
     (case tk_edit tk (widget s) arg of Inl msg \<Rightarrow> widget s | Inr (b, w') \<Rightarrow> w')"
  by (auto simp: call_subcommand_def Let_def split: sum.splits prod.splits)

lemma edit_loop_frame:
  "widget (snd (edit_loop tk arg k s)) \<noteq> widget s \<Longrightarrow>
   \<exists>b w'. tk_edit tk (widget s) arg = Inr (b, w') \<and> w' \<noteq> widget s"
proof (induction k arbitrary: s)
  case 0
  then show ?case by simp
next
  case (Suc k)
  obtain r s' where c: "call_subcommand tk arg s = (r, s')"
    by (cases "call_subcommand tk arg s")
  from call_subcommand_widget [of tk arg s] c
  have w: "widget s' = (case tk_edit tk (widget s) arg of Inl msg \<Rightarrow> widget s | Inr (b, w') \<Rightarrow> w')"
    by simp
  show ?case
  proof (cases "widget s' = widget s")
    case False
    with w show ?thesis by (auto split: sum.splits prod.splits)
  next
    case True
    show ?thesis
    proof (cases r)
      case (Inl e)
      with c True Suc.prems show ?thesis by (cases e) auto
    next
      case (Inr b)
      with c True Suc.prems have "widget (snd (edit_loop tk arg k s')) \<noteq> widget s'" by simp
      from Suc.IH [OF this] True show ?thesis by simp
    qed
  qed
qed

lemma script_disabled_loop:
  assumes "\<not> undo_enabled (widget h)" and "arg = ''undo'' \<or> arg = ''redo''"
  shows "edit_loop scripted_tk arg k h =
           (Inr (), h\<lparr>warned := warned h @ replicate k history_disabled_warning\<rparr>)"
proof (rule disabled_loop)
  show "\<not> tk_cget_undo scripted_tk (widget h)" using assms(1) by (simp add: scripted_tk_def)
  show "\<exists>b. tk_edit scripted_tk (widget h) arg = Inr (b, widget h)"
    using assms by (auto simp: scripted_tk_def script_edit_def)
qed

text \<open>
  Claim C3, as the code has it.  With history tracking off, \<^verbatim>\<open>undo(n)\<close> and \<^verbatim>\<open>redo(n)\<close>
  with \<open>n \<ge> 1\<close> return normally, whatever Tk answers, and issue the history-disabled
  warning before the first step.  Every step still sends \<^verbatim>\<open>edit undo\<close> or \<^verbatim>\<open>edit redo\<close>
  to Tk, and the call changes the widget only if that command, sent to the widget as it
  is, changes it: on the history of the specification, where the command does nothing
  while tracking is off, the widget is left as it was.  With \<open>n \<le> 0\<close> no step is taken: nothing changes and no warning is issued.
\<close>

theorem disabled_history_warns:
  "(\<not> tk_cget_undo tk (widget s) \<and> 1 \<le> n \<longrightarrow>
      fst (undo tk n s) = Inr () \<and> fst (redo tk n s) = Inr () \<and>
      (\<exists>ws. warned (snd (undo tk n s)) = warned s @ history_disabled_warning # ws) \<and>
      (\<exists>ws. warned (snd (redo tk n s)) = warned s @ history_disabled_warning # ws)) \<and>
   (widget (snd (undo tk n s)) \<noteq> widget s \<longrightarrow>
      (\<exists>b w'. tk_edit tk (widget s) ''undo'' = Inr (b, w') \<and> w' \<noteq> widget s)) \<and>
   (widget (snd (redo tk n s)) \<noteq> widget s \<longrightarrow>
      (\<exists>b w'. tk_edit tk (widget s) ''redo'' = Inr (b, w') \<and> w' \<noteq> widget s)) \<and>
   (\<not> undo_enabled (widget h) \<longrightarrow>
      undo scripted_tk n h =
        (Inr (), h\<lparr>warned := warned h @ replicate (nat n) history_disabled_warning\<rparr>) \<and>
      redo scripted_tk n h =
        (Inr (), h\<lparr>warned := warned h @ replicate (nat n) history_disabled_warning\<rparr>)) \<and>
   (n \<le> 0 \<longrightarrow> undo tk n s = (Inr (), s) \<and> redo tk n s = (Inr (), s))"
proof -
  have a: "\<exists>ws. warned (snd (edit_loop tk arg (nat n) s)) = warned s @ history_disabled_warning # ws"
    if "\<not> tk_cget_undo tk (widget s)" and "1 \<le> n" for arg
  proof -
    from that(2) obtain k where "nat n = Suc k" by (cases "nat n") auto
    with edit_loop_off [OF that(1), of arg k] show ?thesis by simp
  qed
  show ?thesis
    using a [of "''undo''"] a [of "''redo''"] edit_loop_frame [of tk "''undo''" "nat n" s]
      edit_loop_frame [of tk "''redo''" "nat n" s]
    by (simp add: undo_def redo_def edit_loop_returns script_disabled_loop)
qed

theorem disabled_history_warns_witness:
  "\<not> tk_cget_undo scripted_tk (widget disabled_example) \<and>
   undo scripted_tk 2 disabled_example =
     (Inr (), disabled_example\<lparr>warned := [history_disabled_warning, history_disabled_warning]\<rparr>) \<and>
   redo scripted_tk 1 disabled_example =
     (Inr (), disabled_example\<lparr>warned := [history_disabled_warning]\<rparr>)"
proof -
  have off: "\<not> undo_enabled (widget disabled_example)"
    by (simp add: disabled_example_def example_widget_def)
  have w: "warned disabled_example = []" by (simp add: disabled_example_def)
  show ?thesis
    using disabled_history_warns [of scripted_tk disabled_example 2 disabled_example]
      disabled_history_warns [of scripted_tk disabled_example 1 disabled_example] off w
    by (simp add: numeral_2_eq_2 scripted_tk_def)
qed

text \<open>The claim as stated asks for a warning from every call: \<^verbatim>\<open>undo(0)\<close> on a widget
  with history tracking off issues none.\<close>

theorem undo_zero_no_warning_counterexample:
  "\<not> tk_cget_undo scripted_tk (widget disabled_example) \<and>
   undo scripted_tk 0 disabled_example = (Inr (), disabled_example) \<and>
   warned (snd (undo scripted_tk 0 disabled_example)) = []"
  by (simp add: undo_def scripted_tk_def disabled_example_def example_widget_def)

section \<open>Properties of positions and ranges\<close>

lemma widget_start_eq [simp]: "widget_start tk w = Inr (1, 0)"
  by (simp add: widget_start_def)

lemma clamped_to_range: "(1, 0) \<le> e \<Longrightarrow> (1, 0) \<le> clamped_to e p \<and> clamped_to e p \<le> e"
  by (auto simp: clamped_to_def)

lemma clamped_to_mono: "(1, 0) \<le> e \<Longrightarrow> p \<le> q \<Longrightarrow> clamped_to e p \<le> clamped_to e q"
  by (auto simp: clamped_to_def)

lemma TextIndex_new_checked:
  assumes "widget_end tk w = Inr e"
  shows "TextIndex_new tk w args False =
           (case TextIndex_resolve tk w args of Inl x \<Rightarrow> Inl x | Inr p \<Rightarrow> Inr (clamped_to e p))"
  using assms by (simp add: TextIndex_new_def clamped_to_def split: sum.splits)

lemma TextIndex_new_in_range:
  assumes "widget_end tk w = Inr e" and "(1, 0) \<le> e" and "TextIndex_new tk w args False = Inr p"
  shows "(1, 0) \<le> p \<and> p \<le> e"
  using assms clamped_to_range [of e]
  by (auto simp: TextIndex_new_checked split: sum.splits)

lemma clamp_cases:
  assumes "widget_end tk w = Inr e" and "clamp tk w q = Inr p"
  shows "p = (1, 0) \<or> p = e \<or> p = q"
  using assms by (auto simp: clamp_def split: if_splits)

lemma then_clamp_in_range:
  assumes "widget_end tk w = Inr e" and "(1, 0) \<le> e"
    and "then_clamp tk w (from_tcl tk w s) = Inr p"
  shows "(1, 0) \<le> p \<and> p \<le> e"
proof -
  from assms(3) obtain q where q: "from_tcl tk w s = Inr q" and c: "clamp tk w q = Inr p"
    by (auto simp: then_clamp_def split: sum.splits)
  from q have "(1, 0) \<le> q \<and> q \<le> e"
    using TextIndex_new_in_range [OF assms(1,2)] by (simp add: from_tcl_def)
  moreover from clamp_cases [OF assms(1) c] have "p = (1, 0) \<or> p = e \<or> p = q" .
  ultimately show ?thesis using assms(2) by auto
qed

text \<open>
  Claim C2.  In a buffer whose last position \<open>e\<close> is not before the first position
  (1, 0), constructing a position from a raw pair never raises: it gives \<^verbatim>\<open>start\<close> for a
  pair before the start, \<^verbatim>\<open>end\<close> for a pair after the end and the pair itself otherwise.
  Every position that a construction from any argument, \<^verbatim>\<open>forward\<close>, \<^verbatim>\<open>back\<close>,
  \<^verbatim>\<open>linestart\<close>, \<^verbatim>\<open>lineend\<close>, \<^verbatim>\<open>wordstart\<close> or \<^verbatim>\<open>wordend\<close> returns lies between
  \<^verbatim>\<open>start\<close> and \<^verbatim>\<open>end\<close>, whatever Tk answered.  The constructions are the checked ones
  (\<^verbatim>\<open>no_check\<close> false, the default); the source switches the check off in two places only,
  to build \<^verbatim>\<open>start\<close> and \<^verbatim>\<open>end\<close> themselves, and these two lie in the range as well.
\<close>

theorem clamping_invariant:
  assumes "widget_end tk w = Inr e" and "(1, 0) \<le> e"
  shows "TextIndex_new tk w (Args2 line col) False =
           Inr (if (line, col) < (1, 0) then (1, 0) else if e < (line, col) then e else (line, col)) \<and>
         (\<forall>r \<in> {TextIndex_new tk w args False,
                 forward tk w q chars indices lines, back_index tk w q chars indices lines,
                 linestart tk w q, lineend tk w q, wordstart tk w q, wordend tk w q}.
            \<forall>p. r = Inr p \<longrightarrow> widget_start tk w = Inr (1, 0) \<and> (1, 0) \<le> p \<and> p \<le> e) \<and>
         (\<forall>r \<in> {TextIndex_new tk w (Args1 (PyInt 0)) True,
                 TextIndex_new tk w (Args1 (PyInt (- 1))) True}.
            \<exists>p. r = Inr p \<and> (1, 0) \<le> p \<and> p \<le> e)"
proof -
  have a: "TextIndex_new tk w (Args2 line col) False =
           Inr (if (line, col) < (1, 0) then (1, 0) else if e < (line, col) then e else (line, col))"
    using assms(1) by (simp add: TextIndex_new_checked clamped_to_def)
  have b: "TextIndex_new tk w args False = Inr p \<Longrightarrow> (1, 0) \<le> p \<and> p \<le> e" for p
    using TextIndex_new_in_range [OF assms] .
  have c: "then_clamp tk w (from_tcl tk w s) = Inr p \<Longrightarrow> (1, 0) \<le> p \<and> p \<le> e" for s p
    using then_clamp_in_range [OF assms] .
  have d: "TextIndex_new tk w (Args1 (PyInt 0)) True = Inr (1, 0)"
    by (simp add: TextIndex_new_def)
  have f: "TextIndex_new tk w (Args1 (PyInt (- 1))) True = Inr e"
    using assms(1) by (simp add: TextIndex_new_def widget_end_def)
  have g: "\<forall>r \<in> {TextIndex_new tk w (Args1 (PyInt 0)) True,
                 TextIndex_new tk w (Args1 (PyInt (- 1))) True}.
            \<exists>p. r = Inr p \<and> (1, 0) \<le> p \<and> p \<le> e"
  proof -
    have "\<exists>p. (Inr (1, 0) :: error + pos) = Inr p \<and> (1, 0) \<le> p \<and> p \<le> e"
      using assms(2) by (intro exI [of _ "(1, 0)"]) simp
    moreover have "\<exists>p. (Inr e :: error + pos) = Inr p \<and> (1, 0) \<le> p \<and> p \<le> e"
      using assms(2) by (intro exI [of _ e]) simp
    ultimately show ?thesis unfolding d f by blast
  qed
  have h: "TextIndex_new tk w (Args2 line col) False =
           Inr (if (line, col) < (1, 0) then (1, 0) else if e < (line, col) then e else (line, col)) \<and>
         (\<forall>r \<in> {TextIndex_new tk w args False,
                 forward tk w q chars indices lines, back_index tk w q chars indices lines,
                 linestart tk w q, lineend tk w q, wordstart tk w q, wordend tk w q}.
            \<forall>p. r = Inr p \<longrightarrow> widget_start tk w = Inr (1, 0) \<and> (1, 0) \<le> p \<and> p \<le> e)"
    using a b c
    unfolding forward_def back_index_def move_def linestart_def lineend_def wordstart_def
      wordend_def apply_suffix_def
    by (simp del: less_eq_prod_simp less_prod_simp)
  from h g show ?thesis by blast
qed

theorem clamping_invariant_witness:
  "widget_end scripted_tk example_widget = Inr (1, 4) \<and>
   TextIndex_new scripted_tk example_widget (Args2 5 7) False = Inr (1, 4) \<and>
   TextIndex_new scripted_tk example_widget (Args2 0 3) False = Inr (1, 0) \<and>
   forward scripted_tk example_widget (1, 0) 2 0 0 = Inr (1, 2) \<and>
   (1, 0) \<le> ((1, 2)::pos) \<and> (1, 2) \<le> ((1, 4)::pos)"
proof -
  have e: "widget_end scripted_tk example_widget = Inr (1, 4)"
    by (simp add: widget_end_def tcl_def scripted_tk_def script_index_def example_widget_def end_minus_1_def)
  have le: "(1, 0) \<le> ((1, 4)::pos)" by simp
  have f: "forward scripted_tk example_widget (1, 0) 2 0 0 = Inr (1, 2)"
    by (simp add: forward_def move_def move_str_def to_tcl_def from_tcl_def then_clamp_def clamp_def
        TextIndex_new_def widget_end_def tcl_def scripted_tk_def script_index_def example_widget_def
        end_minus_1_def)
  show ?thesis
    using clamping_invariant [OF e le, of 5 7 "Args2 5 7" "(1, 0)" 2 0 0]
      clamping_invariant [OF e le, of 0 3 "Args2 0 3" "(1, 0)" 2 0 0] e f
    by simp
qed

text \<open>
  Claim C7.  A value of an unrecognised type raises \<^verbatim>\<open>TypeError\<close>.  An integer other than
  0, 1 and -1 is an unrecognised value too, but the integer branch has no \<^verbatim>\<open>else\<close>: the
  call fails with \<^verbatim>\<open>UnboundLocalError\<close>.  A tuple that is not a pair fails with
  \<^verbatim>\<open>ValueError\<close>.
\<close>

theorem unrecognized_index_values:
  "TextIndex_new tk w (Args1 PyOther) no_check = Inl TypeError \<and>
   TextIndex_new tk w (Args1 (PyInt 5)) no_check = Inl (UnboundLocalError ''line'') \<and>
   TextIndex_new tk w (Args1 (PyTuple [1, 2, 3])) no_check = Inl ValueError"
  by (simp add: TextIndex_new_def)

lemma bound_index_checked:
  assumes "widget_end tk w = Inr e"
  shows "bound_index tk w b = Inr (case b of BNone \<Rightarrow> None | BPair l c \<Rightarrow> Some (clamped_to e (l, c)))"
  using assms by (cases b) (simp_all add: TextIndex_new_checked)

lemma TextRange_new_checked:
  assumes "widget_end tk w = Inr e"
  shows "TextRange_new tk w args =
           Inr (case fst (range_bounds args) of BNone \<Rightarrow> (1, 0) | BPair l c \<Rightarrow> clamped_to e (l, c),
                case snd (range_bounds args) of BNone \<Rightarrow> e | BPair l c \<Rightarrow> clamped_to e (l, c))"
  using assms
  by (simp add: TextRange_new_def bound_index_checked split: bound.splits)

text \<open>
  Claim C4, as the code has it.  \<^verbatim>\<open>TextRange.__new__\<close> does not reorder its bounds: the
  range holds the first bound and the second bound, each clamped into the buffer, with
  \<^verbatim>\<open>start\<close> and \<^verbatim>\<open>end\<close> of the buffer for an omitted one.  So \<open>start \<le> end\<close> holds
  for the range whenever a bound is omitted or the bounds are given in order.  Membership
  is \<^verbatim>\<open>self.start <= index < self.end\<close> with the comparison of positions, which is Tk's;
  where Tk compares lexicographically, membership is \<open>start \<le> p < end\<close> on the pairs.
\<close>

theorem range_construction:
  assumes "widget_end tk w = Inr e" and "(1, 0) \<le> e"
  shows "TextRange_new tk w args =
           Inr (case fst (range_bounds args) of BNone \<Rightarrow> (1, 0) | BPair l c \<Rightarrow> clamped_to e (l, c),
                case snd (range_bounds args) of BNone \<Rightarrow> e | BPair l c \<Rightarrow> clamped_to e (l, c)) \<and>
         (bounds_ordered (fst (range_bounds args)) (snd (range_bounds args)) \<longrightarrow>
            (\<exists>r. TextRange_new tk w args = Inr r \<and> range_start r \<le> range_end r)) \<and>
         range_contains tk w r p =
           (tk_compare tk w (range_start r) Le p \<and> tk_compare tk w p Lt (range_end r)) \<and>
         ((\<forall>a b. tk_compare tk w a Le b = (a \<le> b) \<and> tk_compare tk w a Lt b = (a < b)) \<longrightarrow>
            range_contains tk w r p = (range_start r \<le> p \<and> p < range_end r))"
proof -
  have ord: "bounds_ordered a b \<Longrightarrow>
      (case a of BNone \<Rightarrow> (1, 0) | BPair l c \<Rightarrow> clamped_to e (l, c))
        \<le> (case b of BNone \<Rightarrow> e | BPair l c \<Rightarrow> clamped_to e (l, c))" for a b
    using assms(2) clamped_to_range [OF assms(2)] clamped_to_mono [OF assms(2)]
    by (cases a; cases b) (simp_all del: less_eq_prod_simp)
  have lex: "(\<forall>a b. tk_compare tk w a Le b = (a \<le> b) \<and> tk_compare tk w a Lt b = (a < b)) \<longrightarrow>
      range_contains tk w r p = (range_start r \<le> p \<and> p < range_end r)"
    unfolding range_contains_def by blast
  have rest: "TextRange_new tk w args =
           Inr (case fst (range_bounds args) of BNone \<Rightarrow> (1, 0) | BPair l c \<Rightarrow> clamped_to e (l, c),
                case snd (range_bounds args) of BNone \<Rightarrow> e | BPair l c \<Rightarrow> clamped_to e (l, c)) \<and>
         (bounds_ordered (fst (range_bounds args)) (snd (range_bounds args)) \<longrightarrow>
            (\<exists>r. TextRange_new tk w args = Inr r \<and> range_start r \<le> range_end r)) \<and>
         range_contains tk w r p =
           (tk_compare tk w (range_start r) Le p \<and> tk_compare tk w p Lt (range_end r))"
    using ord [of "fst (range_bounds args)" "snd (range_bounds args)"]
    by (simp add: TextRange_new_checked [OF assms(1)] range_contains_def range_start_def
        range_end_def del: less_eq_prod_simp less_prod_simp)
  from rest lex show ?thesis by blast
qed

theorem range_construction_witness:
  "TextRange_new scripted_tk example_widget (RSlice BNone (BPair 1 2)) = Inr ((1, 0), (1, 2)) \<and>
   TextRange_new scripted_tk example_widget (RTwo (BPair 0 9) (BPair 7 1)) = Inr ((1, 0), (1, 4)) \<and>
   range_start ((1, 0), (1, 2)) \<le> range_end ((1, 0), (1, 2)) \<and>
   range_contains scripted_tk example_widget ((1, 0), (1, 2)) (1, 1) \<and>
   \<not> range_contains scripted_tk example_widget ((1, 0), (1, 2)) (1, 2)"
proof -
  have e: "widget_end scripted_tk example_widget = Inr (1, 4)"
    by (simp add: widget_end_def tcl_def scripted_tk_def script_index_def example_widget_def end_minus_1_def)
  have le: "(1, 0) \<le> ((1, 4)::pos)" by simp
  have cmp: "\<forall>a b. tk_compare scripted_tk example_widget a Le b = (a \<le> b) \<and>
                 tk_compare scripted_tk example_widget a Lt b = (a < b)"
    by (simp add: scripted_tk_def)
  show ?thesis
    using range_construction [OF e le, of "RSlice BNone (BPair 1 2)" "((1, 0), (1, 2))" "(1, 1)"]
      range_construction [OF e le, of "RTwo (BPair 0 9) (BPair 7 1)" "((1, 0), (1, 2))" "(1, 2)"] cmp
    by (simp add: clamped_to_def range_start_def range_end_def)
qed

text \<open>The claim as stated has \<open>start \<le> end\<close> for every range: two positions given in
  the opposite order stay in that order.\<close>

theorem unordered_range_counterexample:
  "TextRange_new scripted_tk example_widget (RTwo (BPair 1 4) (BPair 1 2)) = Inr ((1, 4), (1, 2)) \<and>
   \<not> (range_start ((1, 4), (1, 2)) \<le> range_end ((1, 4), (1, 2)))"
  by (simp add: TextRange_new_def TextIndex_new_def widget_end_def tcl_def scripted_tk_def
      script_index_def example_widget_def end_minus_1_def range_start_def range_end_def)

section \<open>Properties of the reconstruction\<close>

lemma dump_items_append:
  "dump_items tk w reg (xs @ ys) st =
     (case dump_items tk w reg xs st of Inl e \<Rightarrow> Inl e | Inr st' \<Rightarrow> dump_items tk w reg ys st')"
  by (induction xs arbitrary: st) (auto split: sum.splits)

lemma add_item_same_but:
  assumes "\<not> (fst ev = Tagoff \<and> fst (snd ev) = t)" and "same_but t st1 st2"
  shows "rel_sum (=) (same_but t) (add_item tk w reg ev st1) (add_item tk w reg ev st2)"
proof (cases "fst ev = Tagon")
  case True
  with assms(2) show ?thesis by (simp add: add_item_def Let_def same_but_def)
next
  case False
  show ?thesis
  proof (cases "fst ev = Tagoff")
    case True
    with assms(1) have k: "fst (snd ev) \<noteq> t" by simp
    with assms(2) have eq: "snd st1 (fst (snd ev)) = snd st2 (fst (snd ev))" "fst st1 = fst st2"
      by (simp_all add: same_but_def)
    with assms(2) show ?thesis
      by (auto simp: add_item_def Let_def same_but_def split: sum.splits option.splits)
  next
    case nt: False
    with False assms(2) show ?thesis
      by (auto simp: add_item_def Let_def same_but_def split: sum.splits)
  qed
qed

lemma dump_items_same_but:
  assumes "\<forall>ev \<in> set evs. \<not> (fst ev = Tagoff \<and> fst (snd ev) = t)" and "same_but t st1 st2"
  shows "rel_sum (=) (same_but t) (dump_items tk w reg evs st1) (dump_items tk w reg evs st2)"
  using assms
proof (induction evs arbitrary: st1 st2)
  case Nil
  then show ?case by simp
next
  case (Cons ev evs)
  from Cons.prems have n: "\<not> (fst ev = Tagoff \<and> fst (snd ev) = t)" by simp
  have r: "rel_sum (=) (same_but t) (add_item tk w reg ev st1) (add_item tk w reg ev st2)"
    using add_item_same_but [OF n Cons.prems(2)] .
  show ?case
  proof (cases "add_item tk w reg ev st1")
    case (Inl e)
    with r show ?thesis by (cases "add_item tk w reg ev st2") simp_all
  next
    case (Inr a)
    with r obtain b where b: "add_item tk w reg ev st2 = Inr b" "same_but t a b"
      by (cases "add_item tk w reg ev st2") simp_all
    with Inr Cons.IH [of a b] Cons.prems(1) show ?thesis by simp
  qed
qed

lemma tagon_same_but: "add_item tk w reg (Tagon, t, i) st = Inr st' \<Longrightarrow> same_but t st' st"
  by (auto simp: add_item_def Let_def same_but_def)

lemma tagon_ok: "\<exists>st'. add_item tk w reg (Tagon, t, i) st = Inr st'"
  by (simp add: add_item_def Let_def)

lemma convert_no_span:
  "convert reg ty = Inr conv \<Longrightarrow> conv x = Inr v \<Longrightarrow> v \<noteq> SpanItem r tg"
  by (cases ty) (auto split: sum.splits)

lemma add_item_spans:
  assumes "add_item tk w reg ev st = Inr st'" and "SpanItem r tg \<in> set (fst st')"
  shows "SpanItem r tg \<in> set (fst st) \<or>
         (fst ev = Tagoff \<and> text_tags reg (fst (snd ev)) = Some tg)"
proof (cases "fst ev = Tagon")
  case True
  with assms show ?thesis by (auto simp: add_item_def Let_def)
next
  case False
  show ?thesis
  proof (cases "if fst ev = Tagoff then snd st (fst (snd ev)) else None")
    case None
    with False assms obtain conv p v where
      c: "convert reg (fst ev) = Inr conv" "conv (fst (snd ev)) = Inr v"
      and r: "fst st' = fst st @ [IndexItem p, v]"
      by (auto simp: add_item_def Let_def append_item_def split: sum.splits)
    from convert_no_span [OF c] have "v \<noteq> SpanItem r tg" .
    with r assms(2) show ?thesis by auto
  next
    case (Some opened)
    then have off: "fst ev = Tagoff" by (auto split: if_splits)
    from Some False assms obtain rr t where
      g: "getitem (text_tags reg) (fst (snd ev)) = Inr t"
      and r: "fst st' = list_insert (snd opened) (SpanItem rr t) (fst st)"
      by (auto simp: add_item_def Let_def close_tag_def split: sum.splits)
    from r assms(2) have "SpanItem r tg = SpanItem rr t \<or> SpanItem r tg \<in> set (fst st)"
      by (auto simp: list_insert_def dest: in_set_takeD in_set_dropD)
    with g off show ?thesis by (auto simp: getitem_def split: option.splits)
  qed
qed

lemma dump_items_spans:
  assumes "dump_items tk w reg evs st = Inr st'" and "SpanItem r tg \<in> set (fst st')"
  shows "SpanItem r tg \<in> set (fst st) \<or>
         (\<exists>ev \<in> set evs. fst ev = Tagoff \<and> text_tags reg (fst (snd ev)) = Some tg)"
  using assms
proof (induction evs arbitrary: st)
  case Nil
  then show ?case by simp
next
  case (Cons ev evs)
  from Cons.prems(1) obtain st1 where
    a: "add_item tk w reg ev st = Inr st1" and d: "dump_items tk w reg evs st1 = Inr st'"
    by (auto split: sum.splits)
  from Cons.IH [OF d Cons.prems(2)]
  have "SpanItem r tg \<in> set (fst st1) \<or>
        (\<exists>ev \<in> set evs. fst ev = Tagoff \<and> text_tags reg (fst (snd ev)) = Some tg)" .
  then show ?case
  proof
    assume "SpanItem r tg \<in> set (fst st1)"
    from add_item_spans [OF a this] show ?thesis by auto
  next
    assume "\<exists>ev \<in> set evs. fst ev = Tagoff \<and> text_tags reg (fst (snd ev)) = Some tg"
    then show ?thesis by auto
  qed
qed

lemma scan_spans:
  assumes "scan tk w reg evs = Inr items" and "SpanItem r tg \<in> set items"
  shows "\<exists>ev \<in> set evs. fst ev = Tagoff \<and> text_tags reg (fst (snd ev)) = Some tg"
proof -
  from assms(1) obtain st' where d: "dump_items tk w reg evs ([], Map.empty) = Inr st'"
    and i: "items = fst st'"
    by (auto simp: scan_def split: sum.splits)
  from dump_items_spans [OF d] assms(2) i show ?thesis by auto
qed

lemma example_end: "widget_end scripted_tk example_widget = Inr (1, 4)"
  by (simp add: widget_end_def tcl_def scripted_tk_def script_index_def example_widget_def end_minus_1_def)

lemma example_from_tcl:
  "from_tcl scripted_tk example_widget (AtPos 1 0, []) = Inr (1, 0)"
  "from_tcl scripted_tk example_widget (AtPos 1 2, []) = Inr (1, 2)"
  "from_tcl scripted_tk example_widget (AtPos 1 4, []) = Inr (1, 4)"
  by (simp_all add: from_tcl_def TextIndex_new_def widget_end_def tcl_def scripted_tk_def
      script_index_def example_widget_def end_minus_1_def)

lemma example_range:
  "TextRange_new scripted_tk example_widget (RTwo (BPair 1 2) (BPair 1 4)) = Inr ((1, 2), (1, 4))"
  by (simp add: TextRange_new_def TextIndex_new_def example_end)

lemma example_dump: "tk_dump scripted_tk example_widget = example_stream"
  by (simp add: scripted_tk_def example_widget_def)


text \<open>
  Claim C1.  On the stream of the example the scan gives five items, not three: each event
  that is no tag event adds its position and its value as two items of the list, and the
  tag span is inserted as one item at the index recorded when the tag was opened, here 2.
\<close>

theorem example_stream_reconstruction:
  "scan scripted_tk example_widget example_registries example_stream =
     Inr [IndexItem (1, 0), TextItem ''ab'', SpanItem ((1, 2), (1, 4)) (Tag ''t''),
          IndexItem (1, 2), TextItem ''cd''] \<and>
   content scripted_tk example_widget example_registries =
     scan scripted_tk example_widget example_registries example_stream"
  by (simp add: content_def example_dump scan_def example_stream_def add_item_def append_item_def
      close_tag_def example_from_tcl example_range getitem_def example_registries_def
      list_insert_def Let_def)

text \<open>
  Claim C6.  A tag-open event only records the tag as open: no item is added.  When no
  tag-close event for the tag follows it in the stream, the scan gives what it gives
  without the tag-open event, item for item, and fails where it fails without it; and
  every span in the result of a stream that starts with the tag-open event is the span of
  a tag registered under another name.
\<close>

theorem unterminated_tag_dropped:
  assumes "\<forall>ev \<in> set later. \<not> (fst ev = Tagoff \<and> fst (snd ev) = t)"
  shows "add_item tk w reg (Tagon, t, i) (result, unclosed) =
           Inr (result, unclosed(t \<mapsto> (i, length result))) \<and>
         scan tk w reg (earlier @ (Tagon, t, i) # later) = scan tk w reg (earlier @ later) \<and>
         (\<forall>items r tg. scan tk w reg ((Tagon, t, i) # later) = Inr items \<longrightarrow>
            SpanItem r tg \<in> set items \<longrightarrow> (\<exists>v. v \<noteq> t \<and> text_tags reg v = Some tg))"
proof -
  have c: "\<exists>v. v \<noteq> t \<and> text_tags reg v = Some tg"
    if "scan tk w reg ((Tagon, t, i) # later) = Inr items" and "SpanItem r tg \<in> set items"
    for items r tg
  proof -
    from scan_spans [OF that] obtain ev where
      "ev \<in> set ((Tagon, t, i) # later)" "fst ev = Tagoff" "text_tags reg (fst (snd ev)) = Some tg"
      by blast
    with assms show ?thesis by auto
  qed
  have a: "add_item tk w reg (Tagon, t, i) (result, unclosed) =
           Inr (result, unclosed(t \<mapsto> (i, length result)))"
    by (simp add: add_item_def Let_def)
  have b: "scan tk w reg (earlier @ (Tagon, t, i) # later) = scan tk w reg (earlier @ later)"
  proof (cases "dump_items tk w reg earlier ([], Map.empty)")
    case (Inl e)
    then show ?thesis by (simp add: scan_def dump_items_append)
  next
    case (Inr st)
    obtain st' where st': "add_item tk w reg (Tagon, t, i) st = Inr st'"
      using tagon_ok [of tk w reg t i st] by blast
    have "rel_sum (=) (same_but t) (dump_items tk w reg later st') (dump_items tk w reg later st)"
      using dump_items_same_but [OF assms tagon_same_but [OF st']] .
    then have "(case dump_items tk w reg later st' of Inl e \<Rightarrow> Inl e | Inr s \<Rightarrow> Inr (fst s)) =
               (case dump_items tk w reg later st of Inl e \<Rightarrow> Inl e | Inr s \<Rightarrow> Inr (fst s))"
      by (cases "dump_items tk w reg later st'"; cases "dump_items tk w reg later st")
         (simp_all add: same_but_def)
    with Inr st' show ?thesis by (simp add: scan_def dump_items_append)
  qed
  from a b c show ?thesis by blast
qed

theorem unterminated_tag_dropped_witness:
  "scan scripted_tk example_widget example_registries
     [(TextEv, ''ab'', (AtPos 1 0, [])), (Tagon, ''t'', (AtPos 1 2, [])),
      (TextEv, ''cd'', (AtPos 1 2, []))] =
   Inr [IndexItem (1, 0), TextItem ''ab'', IndexItem (1, 2), TextItem ''cd'']"
proof -
  have no_close: "\<forall>ev \<in> set [(TextEv, ''cd'', (AtPos 1 2, []))].
      \<not> (fst ev = Tagoff \<and> fst (snd ev) = ''t'')"
    by simp
  have "scan scripted_tk example_widget example_registries
          [(TextEv, ''ab'', (AtPos 1 0, [])), (TextEv, ''cd'', (AtPos 1 2, []))] =
        Inr [IndexItem (1, 0), TextItem ''ab'', IndexItem (1, 2), TextItem ''cd'']"
    by (simp add: scan_def add_item_def append_item_def example_from_tcl Let_def)
  with unterminated_tag_dropped [OF no_close, of scripted_tk example_widget example_registries
      "(AtPos 1 2, [])" "[]" Map.empty "[(TextEv, ''ab'', (AtPos 1 0, []))]"]
  show ?thesis by simp
qed

section \<open>Properties of the search\<close>






text \<open>On the one-line widget every turn of the loop finds the first occurrence from the
  current start, and the generator finishes within as many requests as the line has
  positions left.\<close>

lemma line_tk_fields [simp]:
  "tk_index line_tk = line_index" "tk_compare line_tk = line_compare"
  "tk_search line_tk = line_search"
  by (simp_all add: line_tk_def)

lemma line_end [simp]: "widget_end line_tk text = Inr (1, int (length text))"
  by (simp add: widget_end_def tcl_def line_index_def line_resolve_def end_minus_1_def
      line_pos_def)














section \<open>Properties of peers\<close>

lemma obtainable_inv: "obtainable b \<Longrightarrow> peer_inv b"
proof (induction rule: obtainable.induct)
  case (fresh name padding b)
  then show ?case by (auto simp: TextBox_init_def peer_inv_def split: sum.splits)
next
  case (peer_self b padding r b')
  then show ?case by (auto simp: Peer_def Let_def peer_inv_def split: if_splits option.splits)
next
  case (peer_new b padding p b')
  then show ?case
    by (auto simp: Peer_def Let_def TextBox_init_def peer_inv_def split: if_splits sum.splits option.splits)
qed

lemma inv_depth: "peer_inv b \<Longrightarrow> nesting_depth b \<le> 1"
proof (cases b)
  case (TextBox path po n c)
  assume i: "peer_inv b"
  show ?thesis
  proof (cases po)
    case None
    with TextBox show ?thesis by simp
  next
    case (Some p)
    with i TextBox have "peer_of p = None" by (simp add: peer_inv_def)
    then have "nesting_depth p = 0" by (cases p) simp
    with Some TextBox show ?thesis by simp
  qed
qed

text \<open>
  Claim C10.  \<^verbatim>\<open>Peer\<close> on a \<^verbatim>\<open>TextBox\<close> that is a peer raises \<^verbatim>\<open>RuntimeError\<close> and
  changes nothing.  On a \<^verbatim>\<open>TextBox\<close> that is no peer, with arguments the constructor
  accepts (as for \<^verbatim>\<open>Peer()\<close>), it adds one to \<^verbatim>\<open>peer_count\<close> and returns a new
  \<^verbatim>\<open>TextBox\<close> whose \<^verbatim>\<open>peer_of\<close> is the first, created on the same text data, and
  which refuses to make peers of its own.  No \<^verbatim>\<open>TextBox\<close> a program can obtain is
  nested deeper than one.
\<close>

theorem peer_of_peer_refused:
  "(peer_of b \<noteq> None \<longrightarrow>
      Peer b padding = (Inl (RuntimeError ''can't create a peer of a peer''), b)) \<and>
   (peer_of b = None \<and> (\<exists>xy. padding_xy padding = Inr xy) \<longrightarrow>
      (\<exists>p b'. Peer b padding = (Inr p, b') \<and>
         b' = TextBox (tcl_path b) None (peer_count b + 1) (created_by b) \<and>
         peer_of p = Some b' \<and> peer_count p = 0 \<and> nesting_depth p = 1 \<and>
         Peer p padding = (Inl (RuntimeError ''can't create a peer of a peer''), p) \<and>
         (obtainable b \<longrightarrow> data_of p = data_of b))) \<and>
   (obtainable b \<longrightarrow> nesting_depth b \<le> 1)"
proof -
  have a: "peer_of b \<noteq> None \<longrightarrow>
      Peer b padding = (Inl (RuntimeError ''can't create a peer of a peer''), b)"
    by (simp add: Peer_def)
  have c: "obtainable b \<longrightarrow> nesting_depth b \<le> 1"
    using obtainable_inv inv_depth by blast
  have d: "obtainable b \<Longrightarrow> peer_of b = None \<Longrightarrow> created_by b = NewText"
    using obtainable_inv [of b] by (simp add: peer_inv_def)
  have b: "peer_of b = None \<and> (\<exists>xy. padding_xy padding = Inr xy) \<longrightarrow>
      (\<exists>p b'. Peer b padding = (Inr p, b') \<and>
         b' = TextBox (tcl_path b) None (peer_count b + 1) (created_by b) \<and>
         peer_of p = Some b' \<and> peer_count p = 0 \<and> nesting_depth p = 1 \<and>
         Peer p padding = (Inl (RuntimeError ''can't create a peer of a peer''), p) \<and>
         (obtainable b \<longrightarrow> data_of p = data_of b))"
  proof
    assume h: "peer_of b = None \<and> (\<exists>xy. padding_xy padding = Inr xy)"
    then obtain xy where xy: "padding_xy padding = Inr xy" by blast
    let ?b' = "TextBox (tcl_path b) None (peer_count b + 1) (created_by b)"
    let ?p = "TextBox (PeerPath (peer_count b + 1) (tcl_path b)) (Some ?b') 0
                (PeerCreate (tcl_path b))"
    have 1: "Peer b padding = (Inr ?p, ?b')"
      using h xy by (simp add: Peer_def Let_def TextBox_init_def)
    have 2: "Peer ?p padding = (Inl (RuntimeError ''can't create a peer of a peer''), ?p)"
      by (simp add: Peer_def)
    have 3: "obtainable b \<longrightarrow> data_of ?p = data_of b"
      using d h by (simp add: data_of_def)
    have 4: "peer_of ?p = Some ?b' \<and> peer_count ?p = 0 \<and> nesting_depth ?p = 1"
      by simp
    from 1 2 3 4 show "\<exists>p b'. Peer b padding = (Inr p, b') \<and>
         b' = TextBox (tcl_path b) None (peer_count b + 1) (created_by b) \<and>
         peer_of p = Some b' \<and> peer_count p = 0 \<and> nesting_depth p = 1 \<and>
         Peer p padding = (Inl (RuntimeError ''can't create a peer of a peer''), p) \<and>
         (obtainable b \<longrightarrow> data_of p = data_of b)"
      by blast
  qed
  from a b c show ?thesis by blast
qed

theorem peer_of_peer_refused_witness:
  "obtainable example_box \<and> peer_of example_box = None \<and>
   Peer example_box None =
     (Inr (TextBox (PeerPath 1 (WidgetPath ''.textbox''))
             (Some (TextBox (WidgetPath ''.textbox'') None 1 NewText)) 0
             (PeerCreate (WidgetPath ''.textbox''))),
      TextBox (WidgetPath ''.textbox'') None 1 NewText) \<and>
   nesting_depth example_box \<le> 1 \<and>
   Peer (TextBox (PeerPath 1 (WidgetPath ''.textbox''))
             (Some (TextBox (WidgetPath ''.textbox'') None 1 NewText)) 0
             (PeerCreate (WidgetPath ''.textbox''))) None =
     (Inl (RuntimeError ''can't create a peer of a peer''),
      TextBox (PeerPath 1 (WidgetPath ''.textbox''))
             (Some (TextBox (WidgetPath ''.textbox'') None 1 NewText)) 0
             (PeerCreate (WidgetPath ''.textbox'')))"
proof -
  have o: "obtainable example_box"
    by (rule obtainable.fresh [of "''.textbox''" None]) (simp add: TextBox_init_def example_box_def)
  have n: "peer_of example_box = None" by (simp add: example_box_def)
  have pk: "\<exists>xy. padding_xy None = Inr xy" by simp
  from peer_of_peer_refused [of example_box None] o n pk
  show ?thesis by (auto simp: example_box_def Peer_def Let_def TextBox_init_def)
qed

end
